theory Spec2Isabelle
  imports Complex_Main
begin

section \<open>Data model of \<^verbatim>\<open>pyaarlo/__init__.py\<close>\<close>

text \<open>
  The values that arrive in the device inventory (decoded JSON) and that the code
  compares, concatenates and stores. Numbers are kept as integers: no operation of the
  orchestrator computes with a device field.
\<close>

datatype pyval =
    PNone
  | PBool bool
  | PInt int
  | PStr string
  | PList "pyval list"
  | PDict "(string \<times> pyval) list"

text \<open>A RawDevice is a Python dict with string keys, kept as an association list.\<close>

type_synonym raw_device = "(string \<times> pyval) list"

text \<open>\<^verbatim>\<open>device.get(key, default)\<close>: the value under the key, the default when the key is absent.\<close>

definition dict_get :: "raw_device \<Rightarrow> string \<Rightarrow> pyval \<Rightarrow> pyval" where
  "dict_get d k dflt = (case map_of d k of None \<Rightarrow> dflt | Some v \<Rightarrow> v)"

datatype error = TypeError

text \<open>
  \<^verbatim>\<open>'literal' + x\<close> with a string on the left: Python concatenates when \<open>x\<close> is a string
  and raises TypeError for every other value, \<open>None\<close> included.
\<close>

fun str_add :: "string \<Rightarrow> pyval \<Rightarrow> error + string" where
  "str_add s (PStr t) = Inr (s @ t)"
| "str_add s PNone = Inl TypeError"
| "str_add s (PBool b) = Inl TypeError"
| "str_add s (PInt i) = Inl TypeError"
| "str_add s (PList l) = Inl TypeError"
| "str_add s (PDict m) = Inl TypeError"

text \<open>
  Modelled from the spec: the classes ArloBase, ArloCamera and ArloDoorBell are not under
  src/. A DeviceRecord is built from a name and the raw device, its type tag is the
  class, and its identity is the raw device's \<^verbatim>\<open>deviceId\<close>.
\<close>

datatype device_record =
    ArloBase pyval raw_device
  | ArloCamera pyval raw_device
  | ArloDoorBell pyval raw_device

fun attrs :: "device_record \<Rightarrow> raw_device" where
  "attrs (ArloBase n d) = d"
| "attrs (ArloCamera n d) = d"
| "attrs (ArloDoorBell n d) = d"

definition device_id :: "device_record \<Rightarrow> pyval" where
  "device_id r = dict_get (attrs r) ''deviceId'' PNone"

text \<open>
  Modelled from the spec: ArloStorage is not under src/. The StateStore maps a key path
  to a value; \<^verbatim>\<open>set\<close> overwrites the value under the path, \<^verbatim>\<open>get\<close> reads it with a
  default.
\<close>

type_synonym storage = "pyval list \<rightharpoonup> pyval"

definition st_set :: "pyval list \<Rightarrow> pyval \<Rightarrow> storage \<Rightarrow> storage" where
  "st_set keys v store = store(keys \<mapsto> v)"

definition st_get :: "pyval list \<Rightarrow> pyval \<Rightarrow> storage \<Rightarrow> pyval" where
  "st_get keys dflt store = (case store keys of None \<Rightarrow> dflt | Some v \<Rightarrow> v)"

text \<open>The callables the orchestrator hands to the background runner.\<close>

datatype job =
    StSave
  | AsyncPing device_record
  | MlLoad
  | RefreshCameraThumbnails
  | RefreshCameraMedia
  | RefreshAmbientSensors
  | RefreshBases bool
  | RefreshDevices
  | InitialRefresh
  | FastRefresh
  | SlowRefresh

text \<open>
  Modelled from the spec: ArloBackground is not under src/. The TaskRunner keeps what it
  was given: jobs to run now (\<^verbatim>\<open>run\<close>), one-shot jobs with their delay (\<^verbatim>\<open>run_in\<close>) and
  recurring jobs with their period (\<^verbatim>\<open>run_every\<close>). It has no operation that removes a
  registered job.
\<close>

record background =
  run_queue :: "job list"
  run_in_queue :: "(job \<times> nat) list"
  run_every_queue :: "(job \<times> nat) list"

definition bg_run :: "job \<Rightarrow> background \<Rightarrow> background" where
  "bg_run j b = b\<lparr>run_queue := run_queue b @ [j]\<rparr>"

definition bg_run_in :: "job \<Rightarrow> nat \<Rightarrow> background \<Rightarrow> background" where
  "bg_run_in j delay b = b\<lparr>run_in_queue := run_in_queue b @ [(j, delay)]\<rparr>"

definition bg_run_every :: "job \<Rightarrow> nat \<Rightarrow> background \<Rightarrow> background" where
  "bg_run_every j period b = b\<lparr>run_every_queue := run_every_queue b @ [(j, period)]\<rparr>"

text \<open>A calendar date, as \<^verbatim>\<open>datetime.date.today()\<close> returns it: year, month, day.\<close>

datatype date = Date nat nat nat

text \<open>
  The names imported from \<^verbatim>\<open>.constant\<close>, a module that is not under src/: they are
  parameters of the model.
\<close>

record constants =
  DEVICE_KEYS :: "string list"
  FAST_REFRESH_INTERVAL :: nat
  SLOW_REFRESH_INTERVAL :: nat
  TOTAL_CAMERAS_KEY :: string
  TOTAL_BELLS_KEY :: string

text \<open>
  The state of a PyArlo object. \<open>refresh_devices_every\<close> is the configuration value
  \<^verbatim>\<open>self._cfg.refresh_devices_every\<close>; readings of \<^verbatim>\<open>time.monotonic()\<close> and the interval
  are numbers of seconds. \<open>st_saved\<close> is the durable copy that \<^verbatim>\<open>save\<close> writes and
  \<open>be_logged_in\<close> the remote session that \<^verbatim>\<open>logout\<close> ends (both modelled from the spec:
  ArloStorage and ArloBackEnd are not under src/).
\<close>

record pyarlo =
  refresh_devices_every :: real
  bg :: background
  st :: storage
  st_saved :: storage
  be_logged_in :: bool
  bases :: "device_record list"
  cameras :: "device_record list"
  doorbells :: "device_record list"
  today :: date
  refresh_devices_at :: real
  devices :: "raw_device list"

section \<open>Device inventory: fetch, persist, classify\<close>

text \<open>\<^verbatim>\<open>_refresh_devices\<close>: the inventory becomes what the backend answered.\<close>

definition refresh_devices :: "raw_device list \<Rightarrow> pyarlo \<Rightarrow> pyarlo" where
  "refresh_devices response s = s\<lparr>devices := response\<rparr>"

text \<open>\<^verbatim>\<open>_parse_devices\<close>, inner loop over DEVICE_KEYS for one device.\<close>

fun parse_device_keys :: "pyval \<Rightarrow> raw_device \<Rightarrow> string list \<Rightarrow> storage \<Rightarrow> storage" where
  "parse_device_keys device_id' device [] store = store"
| "parse_device_keys device_id' device (key # keys) store =
     (let v = dict_get device key PNone in
      parse_device_keys device_id' device keys
        (if v \<noteq> PNone then st_set [device_id', PStr key] v store else store))"

text \<open>\<^verbatim>\<open>_parse_devices\<close>, outer loop over the inventory.\<close>

fun parse_devices_loop :: "string list \<Rightarrow> raw_device list \<Rightarrow> storage \<Rightarrow> storage" where
  "parse_devices_loop ks [] store = store"
| "parse_devices_loop ks (device # rest) store =
     (let device_id' = dict_get device ''deviceId'' PNone in
      parse_devices_loop ks rest
        (if device_id' \<noteq> PNone then parse_device_keys device_id' device ks store else store))"

definition parse_devices :: "constants \<Rightarrow> pyarlo \<Rightarrow> pyarlo" where
  "parse_devices c s = s\<lparr>st := parse_devices_loop (DEVICE_KEYS c) (devices s) (st s)\<rparr>"

text \<open>
  The body of the classification loop of \<^verbatim>\<open>__init__\<close> for one device. The message of the
  skip branch goes to the logger; building it is what can raise.
\<close>

definition init_device :: "raw_device \<Rightarrow> pyarlo \<Rightarrow> error + pyarlo" where
  "init_device device s =
     (let dname = dict_get device ''deviceName'' PNone;
          dtype = dict_get device ''deviceType'' PNone
      in
      if dict_get device ''state'' (PStr ''unknown'') \<noteq> PStr ''provisioned'' then
        (case str_add ''skipping '' dname of
           Inl e \<Rightarrow> Inl e
         | Inr msg \<Rightarrow> Inr s)
      else
        (let s1 = (if dtype = PStr ''basestation''
                      \<or> dict_get device ''modelId'' PNone = PStr ''ABC1000''
                      \<or> dtype = PStr ''arloq'' \<or> dtype = PStr ''arloqs''
                   then s\<lparr>bases := bases s @ [ArloBase dname device]\<rparr> else s);
             s2 = (if dtype = PStr ''camera'' \<or> dtype = PStr ''arloq'' \<or> dtype = PStr ''arloqs''
                   then s1\<lparr>cameras := cameras s1 @ [ArloCamera dname device]\<rparr> else s1);
             s3 = (if dtype = PStr ''doorbell''
                   then s2\<lparr>doorbells := doorbells s2 @ [ArloDoorBell dname device]\<rparr> else s2)
         in Inr s3))"

fun init_devices :: "raw_device list \<Rightarrow> pyarlo \<Rightarrow> error + pyarlo" where
  "init_devices [] s = Inr s"
| "init_devices (device # rest) s =
     (case init_device device s of
        Inl e \<Rightarrow> Inl e
      | Inr s' \<Rightarrow> init_devices rest s')"

section \<open>Refresh cadences\<close>

fun ping_bases_loop :: "device_record list \<Rightarrow> background \<Rightarrow> background" where
  "ping_bases_loop [] b = b"
| "ping_bases_loop (base # rest) b = ping_bases_loop rest (bg_run (AsyncPing base) b)"

definition ping_bases :: "pyarlo \<Rightarrow> pyarlo" where
  "ping_bases s = s\<lparr>bg := ping_bases_loop (bases s) (bg s)\<rparr>"

text \<open>\<^verbatim>\<open>_fast_refresh\<close>; \<open>cur_date\<close> is what \<^verbatim>\<open>datetime.date.today()\<close> returns in the tick.\<close>

definition fast_refresh :: "date \<Rightarrow> pyarlo \<Rightarrow> pyarlo" where
  "fast_refresh cur_date s =
     (let s1 = s\<lparr>bg := bg_run StSave (bg s)\<rparr>;
          s2 = ping_bases s1
      in
      if today s2 \<noteq> cur_date then
        (let s3 = s2\<lparr>today := cur_date\<rparr>;
             s4 = s3\<lparr>bg := bg_run MlLoad (bg s3)\<rparr>
         in s4\<lparr>bg := bg_run RefreshCameraMedia (bg s4)\<rparr>)
      else s2)"

text \<open>\<^verbatim>\<open>_slow_refresh\<close>; \<open>now\<close> is what \<^verbatim>\<open>time.monotonic()\<close> returns in the tick.\<close>

definition slow_refresh :: "real \<Rightarrow> pyarlo \<Rightarrow> pyarlo" where
  "slow_refresh now s =
     (let s1 = s\<lparr>bg := bg_run (RefreshBases False) (bg s)\<rparr>;
          s2 = s1\<lparr>bg := bg_run RefreshAmbientSensors (bg s1)\<rparr>
      in
      if refresh_devices_every s2 \<noteq> 0 then
        (if now > refresh_devices_at s2 then
           (let s3 = s2\<lparr>refresh_devices_at := now + refresh_devices_every s2\<rparr>
            in s3\<lparr>bg := bg_run RefreshDevices (bg s3)\<rparr>)
         else s2)
      else s2)"

text \<open>\<^verbatim>\<open>_initial_refresh\<close>.\<close>

definition initial_refresh :: "pyarlo \<Rightarrow> pyarlo" where
  "initial_refresh s =
     (let s1 = s\<lparr>bg := bg_run (RefreshBases True) (bg s)\<rparr>
      in s1\<lparr>bg := bg_run RefreshAmbientSensors (bg s1)\<rparr>)"

text \<open>\<^verbatim>\<open>stop\<close>: \<^verbatim>\<open>self._st.save()\<close>, then \<^verbatim>\<open>self._be.logout()\<close>; nothing else.\<close>

definition stop :: "pyarlo \<Rightarrow> pyarlo" where
  "stop s = (let s1 = s\<lparr>st_saved := st s\<rparr> in s1\<lparr>be_logged_in := False\<rparr>)"

section \<open>Construction\<close>

text \<open>
  \<^verbatim>\<open>__init__\<close>. Its inputs are the constants, the configured reload interval, the store as
  ArloStorage loaded it, the date and the monotonic time of the call, and the inventory
  the backend answers. A TypeError raised in the classification loop leaves the
  constructor.
\<close>

definition init ::
  "constants \<Rightarrow> real \<Rightarrow> storage \<Rightarrow> date \<Rightarrow> real \<Rightarrow> raw_device list \<Rightarrow> error + pyarlo" where
  "init c every store0 cur_date now response =
     (let s0 = \<lparr>refresh_devices_every = every,
                 bg = \<lparr>run_queue = [], run_in_queue = [], run_every_queue = []\<rparr>,
                 st = store0, st_saved = store0, be_logged_in = True,
                 bases = [], cameras = [], doorbells = [],
                 today = cur_date,
                 refresh_devices_at = now + every,
                 devices = []\<rparr>;
          s1 = refresh_devices response s0;
          s2 = parse_devices c s1
      in
      case init_devices (devices s2) s2 of
        Inl e \<Rightarrow> Inl e
      | Inr s3 \<Rightarrow>
         (let s4 = s3\<lparr>st := st_set [PStr ''ARLO'', PStr (TOTAL_CAMERAS_KEY c)]
                                 (PInt (int (length (cameras s3)))) (st s3)\<rparr>;
              s5 = s4\<lparr>st := st_set [PStr ''ARLO'', PStr (TOTAL_BELLS_KEY c)]
                                 (PInt (int (length (doorbells s4)))) (st s4)\<rparr>;
              s6 = ping_bases s5;
              s7 = s6\<lparr>bg := bg_run_in RefreshCameraThumbnails 2 (bg s6)\<rparr>;
              s8 = s7\<lparr>bg := bg_run_in RefreshCameraMedia 2 (bg s7)\<rparr>;
              s9 = s8\<lparr>bg := bg_run_in InitialRefresh 5 (bg s8)\<rparr>;
              s10 = s9\<lparr>bg := bg_run_in MlLoad 10 (bg s9)\<rparr>;
              s11 = s10\<lparr>bg := bg_run_every FastRefresh (FAST_REFRESH_INTERVAL c) (bg s10)\<rparr>
          in Inr (s11\<lparr>bg := bg_run_every SlowRefresh (SLOW_REFRESH_INTERVAL c) (bg s11)\<rparr>)))"

section \<open>Runs of ticks\<close>

text \<open>A tick of a cadence, with the clock reading its body takes.\<close>

datatype tick = FastTick date | SlowTick real

fun run_tick :: "tick \<Rightarrow> pyarlo \<Rightarrow> pyarlo" where
  "run_tick (FastTick d) s = fast_refresh d s"
| "run_tick (SlowTick now) s = slow_refresh now s"

fun run_ticks :: "tick list \<Rightarrow> pyarlo \<Rightarrow> pyarlo" where
  "run_ticks [] s = s"
| "run_ticks (t # ts) s = run_ticks ts (run_tick t s)"

text \<open>
  Modelled from the spec: the TaskRunner invokes a recurring job for as long as it is
  registered with \<^verbatim>\<open>run_every\<close> (ArloBackground is not under src/). \<open>fire\<close> is one such
  invocation.
\<close>

fun tick_job :: "tick \<Rightarrow> job" where
  "tick_job (FastTick d) = FastRefresh"
| "tick_job (SlowTick now) = SlowRefresh"

definition fire :: "tick \<Rightarrow> pyarlo \<Rightarrow> pyarlo" where
  "fire t s = (if tick_job t \<in> fst ` set (run_every_queue (bg s)) then run_tick t s else s)"

text \<open>The jobs handed to \<^verbatim>\<open>run\<close> between an earlier state and a later one.\<close>

definition enqueued :: "pyarlo \<Rightarrow> pyarlo \<Rightarrow> job list" where
  "enqueued s s' = drop (length (run_queue (bg s))) (run_queue (bg s'))"

section \<open>Example inputs\<close>

definition example_constants :: constants where
  "example_constants =
     \<lparr>DEVICE_KEYS = [''modelId'', ''deviceName''],
      FAST_REFRESH_INTERVAL = 60, SLOW_REFRESH_INTERVAL = 510,
      TOTAL_CAMERAS_KEY = ''total_cameras'', TOTAL_BELLS_KEY = ''total_bells''\<rparr>"

text \<open>The three devices of the spec's end-to-end scenario, as the spec writes them.\<close>

definition scenario_devices :: "raw_device list" where
  "scenario_devices =
     [[(''deviceId'', PStr ''B1''), (''deviceType'', PStr ''basestation''),
       (''state'', PStr ''provisioned'')],
      [(''deviceId'', PStr ''C1''), (''deviceType'', PStr ''camera''),
       (''state'', PStr ''provisioned'')],
      [(''deviceId'', PStr ''X1''), (''deviceType'', PStr ''camera''),
       (''state'', PStr ''unknown'')]]"

text \<open>An inventory whose devices all carry a name: a hub, a combined device, a skipped one.\<close>

definition example_hub :: raw_device where
  "example_hub =
     [(''deviceId'', PStr ''B1''), (''deviceName'', PStr ''hub''),
      (''deviceType'', PStr ''basestation''), (''state'', PStr ''provisioned'')]"

definition example_arloq :: raw_device where
  "example_arloq =
     [(''deviceId'', PStr ''Q1''), (''deviceName'', PStr ''hall''),
      (''deviceType'', PStr ''arloq''), (''modelId'', PStr ''VMC3040''),
      (''state'', PStr ''provisioned'')]"

definition example_skipped :: raw_device where
  "example_skipped =
     [(''deviceId'', PStr ''X1''), (''deviceName'', PStr ''attic''),
      (''deviceType'', PStr ''camera''), (''modelId'', PStr ''VMC4030''),
      (''state'', PStr ''unknown'')]"

definition example_devices :: "raw_device list" where
  "example_devices = [example_hub, example_arloq, example_skipped]"

text \<open>
  A steady state: the hub and the combined device classified, both cadences registered,
  reload interval 5 and reload deadline 10.
\<close>

definition example_state :: pyarlo where
  "example_state =
     \<lparr>refresh_devices_every = 5,
      bg = \<lparr>run_queue = [],
            run_in_queue = [],
            run_every_queue = [(FastRefresh, 60), (SlowRefresh, 510)]\<rparr>,
      st = Map.empty, st_saved = Map.empty, be_logged_in = True,
      bases = [ArloBase (PStr ''hub'') example_hub, ArloBase (PStr ''hall'') example_arloq],
      cameras = [ArloCamera (PStr ''hall'') example_arloq],
      doorbells = [],
      today = Date 2020 1 1,
      refresh_devices_at = 10,
      devices = example_devices\<rparr>"

text \<open>The same state with the device reload switched off.\<close>

definition example_disabled :: pyarlo where
  "example_disabled = example_state\<lparr>refresh_devices_every := 0\<rparr>"

text \<open>The constructor run on the named inventory.\<close>

definition example_started :: "error + pyarlo" where
  "example_started = init example_constants 5 Map.empty (Date 2020 1 1) 5 example_devices"

section \<open>What a tick hands to the runner\<close>

lemma ping_bases_loop_queue:
  "run_queue (ping_bases_loop bs b) = run_queue b @ map AsyncPing bs"
  by (induction bs arbitrary: b) (simp_all add: bg_run_def)

lemma ping_bases_loop_in: "run_in_queue (ping_bases_loop bs b) = run_in_queue b"
  by (induction bs arbitrary: b) (simp_all add: bg_run_def)

lemma ping_bases_loop_every: "run_every_queue (ping_bases_loop bs b) = run_every_queue b"
  by (induction bs arbitrary: b) (simp_all add: bg_run_def)

lemma fast_refresh_queue:
  "run_queue (bg (fast_refresh d s)) =
     run_queue (bg s) @ StSave # map AsyncPing (bases s)
       @ (if today s \<noteq> d then [MlLoad, RefreshCameraMedia] else [])"
  by (simp add: fast_refresh_def ping_bases_def bg_run_def ping_bases_loop_queue Let_def)

lemma slow_refresh_queue:
  "run_queue (bg (slow_refresh now s)) =
     run_queue (bg s) @ [RefreshBases False, RefreshAmbientSensors]
       @ (if refresh_devices_every s \<noteq> 0 \<and> refresh_devices_at s < now
          then [RefreshDevices] else [])"
  by (simp add: slow_refresh_def bg_run_def Let_def)

lemma enqueued_append:
  "run_queue (bg s') = run_queue (bg s) @ new \<Longrightarrow> enqueued s s' = new"
  by (simp add: enqueued_def)

lemma fast_refresh_today: "today (fast_refresh d s) = d"
  by (simp add: fast_refresh_def ping_bases_def Let_def)

lemma fast_refresh_frame:
  "bases (fast_refresh d s) = bases s \<and> cameras (fast_refresh d s) = cameras s
   \<and> doorbells (fast_refresh d s) = doorbells s
   \<and> refresh_devices_every (fast_refresh d s) = refresh_devices_every s
   \<and> refresh_devices_at (fast_refresh d s) = refresh_devices_at s
   \<and> st (fast_refresh d s) = st s \<and> st_saved (fast_refresh d s) = st_saved s
   \<and> be_logged_in (fast_refresh d s) = be_logged_in s
   \<and> devices (fast_refresh d s) = devices s
   \<and> run_in_queue (bg (fast_refresh d s)) = run_in_queue (bg s)
   \<and> run_every_queue (bg (fast_refresh d s)) = run_every_queue (bg s)"
  by (simp add: fast_refresh_def ping_bases_def Let_def bg_run_def
      ping_bases_loop_in ping_bases_loop_every)

lemma slow_refresh_frame:
  "bases (slow_refresh now s) = bases s \<and> cameras (slow_refresh now s) = cameras s
   \<and> doorbells (slow_refresh now s) = doorbells s
   \<and> refresh_devices_every (slow_refresh now s) = refresh_devices_every s
   \<and> today (slow_refresh now s) = today s
   \<and> st (slow_refresh now s) = st s \<and> st_saved (slow_refresh now s) = st_saved s
   \<and> be_logged_in (slow_refresh now s) = be_logged_in s
   \<and> devices (slow_refresh now s) = devices s
   \<and> run_in_queue (bg (slow_refresh now s)) = run_in_queue (bg s)
   \<and> run_every_queue (bg (slow_refresh now s)) = run_every_queue (bg s)"
  by (simp add: slow_refresh_def Let_def bg_run_def)

lemma count_list_pings:
  "count_list (map AsyncPing bs) MlLoad = 0"
  "count_list (map AsyncPing bs) RefreshCameraMedia = 0"
  "count_list (map AsyncPing bs) RefreshDevices = 0"
  by (induction bs) simp_all

section \<open>Device reload on the slow cadence\<close>




lemma run_tick_queue:
  "\<exists>new. run_queue (bg (run_tick t s)) = run_queue (bg s) @ new
      \<and> (refresh_devices_every s = 0 \<longrightarrow> count_list new RefreshDevices = 0)"
  by (cases t) (simp_all add: fast_refresh_queue slow_refresh_queue count_list_pings)

lemma run_tick_every: "refresh_devices_every (run_tick t s) = refresh_devices_every s"
  by (cases t) (simp_all add: fast_refresh_frame slow_refresh_frame)

lemma run_ticks_queue:
  "\<exists>new. run_queue (bg (run_ticks ts s)) = run_queue (bg s) @ new
      \<and> (refresh_devices_every s = 0 \<longrightarrow> count_list new RefreshDevices = 0)"
proof (induction ts arbitrary: s)
  case Nil
  then show ?case by simp
next
  case (Cons t ts)
  obtain n1 where n1: "run_queue (bg (run_tick t s)) = run_queue (bg s) @ n1"
      "refresh_devices_every s = 0 \<longrightarrow> count_list n1 RefreshDevices = 0"
    using run_tick_queue by blast
  obtain n2 where n2:
      "run_queue (bg (run_ticks ts (run_tick t s))) = run_queue (bg (run_tick t s)) @ n2"
      "refresh_devices_every (run_tick t s) = 0 \<longrightarrow> count_list n2 RefreshDevices = 0"
    using Cons.IH by blast
  have "run_queue (bg (run_ticks (t # ts) s)) = run_queue (bg s) @ (n1 @ n2)"
    using n1 n2 by simp
  moreover have "refresh_devices_every s = 0 \<longrightarrow> count_list (n1 @ n2) RefreshDevices = 0"
    using n1 n2 by (simp add: run_tick_every)
  ultimately show ?case by blast
qed

text \<open>
  C2: with the reload interval configured as zero, no run of ticks, slow or fast, in any
  number and at any monotonic times, hands a device-inventory reload job to the runner.
\<close>

theorem reload_disabled:
  assumes "refresh_devices_every s = 0"
  shows "count_list (enqueued s (run_ticks ts s)) RefreshDevices = 0"
proof -
  obtain new where "run_queue (bg (run_ticks ts s)) = run_queue (bg s) @ new"
      and "count_list new RefreshDevices = 0"
    using run_ticks_queue assms by blast
  then show ?thesis by (simp add: enqueued_append)
qed

theorem reload_disabled_witness:
  "refresh_devices_every example_disabled = 0
   \<and> count_list (enqueued example_disabled
        (run_ticks [SlowTick 100, FastTick (Date 2020 1 2), SlowTick 1000000] example_disabled))
        RefreshDevices = 0"
  using reload_disabled
    [of example_disabled "[SlowTick 100, FastTick (Date 2020 1 2), SlowTick 1000000]"]
  by (simp add: example_disabled_def)

section \<open>Day rollover on the fast cadence\<close>

text \<open>
  C3: after a fast tick on date \<open>d1\<close>, a fast tick on a date \<open>d2 \<noteq> d1\<close> hands exactly one
  media-library load and exactly one camera-media rebuild to the runner and stores \<open>d2\<close>
  as today; the next fast tick, still on \<open>d2\<close>, hands over neither.
\<close>

theorem day_rollover:
  assumes "d1 \<noteq> d2"
  shows "count_list (enqueued (fast_refresh d1 s) (fast_refresh d2 (fast_refresh d1 s)))
           MlLoad = 1
     \<and> count_list (enqueued (fast_refresh d1 s) (fast_refresh d2 (fast_refresh d1 s)))
           RefreshCameraMedia = 1
     \<and> today (fast_refresh d2 (fast_refresh d1 s)) = d2
     \<and> count_list (enqueued (fast_refresh d2 (fast_refresh d1 s))
          (fast_refresh d2 (fast_refresh d2 (fast_refresh d1 s)))) MlLoad = 0
     \<and> count_list (enqueued (fast_refresh d2 (fast_refresh d1 s))
          (fast_refresh d2 (fast_refresh d2 (fast_refresh d1 s)))) RefreshCameraMedia = 0"
proof -
  let ?s1 = "fast_refresh d1 s"
  let ?s2 = "fast_refresh d2 ?s1"
  let ?s3 = "fast_refresh d2 ?s2"
  have e12: "enqueued ?s1 ?s2
               = StSave # map AsyncPing (bases ?s1) @ [MlLoad, RefreshCameraMedia]"
    using assms
    by (intro enqueued_append) (simp add: fast_refresh_queue [of d2] fast_refresh_today)
  have e23: "enqueued ?s2 ?s3 = StSave # map AsyncPing (bases ?s2)"
    by (intro enqueued_append) (simp add: fast_refresh_queue [of d2 ?s2] fast_refresh_today)
  show ?thesis
    by (simp add: e12 e23 fast_refresh_today count_list_pings)
qed

theorem day_rollover_witness:
  "Date 2020 1 1 \<noteq> Date 2020 1 2
   \<and> count_list (enqueued (fast_refresh (Date 2020 1 1) example_state)
        (fast_refresh (Date 2020 1 2) (fast_refresh (Date 2020 1 1) example_state)))
        MlLoad = 1
   \<and> count_list (enqueued (fast_refresh (Date 2020 1 1) example_state)
        (fast_refresh (Date 2020 1 2) (fast_refresh (Date 2020 1 1) example_state)))
        RefreshCameraMedia = 1
   \<and> today (fast_refresh (Date 2020 1 2) (fast_refresh (Date 2020 1 1) example_state))
        = Date 2020 1 2
   \<and> count_list (enqueued
        (fast_refresh (Date 2020 1 2) (fast_refresh (Date 2020 1 1) example_state))
        (fast_refresh (Date 2020 1 2)
           (fast_refresh (Date 2020 1 2) (fast_refresh (Date 2020 1 1) example_state))))
        MlLoad = 0
   \<and> count_list (enqueued
        (fast_refresh (Date 2020 1 2) (fast_refresh (Date 2020 1 1) example_state))
        (fast_refresh (Date 2020 1 2)
           (fast_refresh (Date 2020 1 2) (fast_refresh (Date 2020 1 1) example_state))))
        RefreshCameraMedia = 0"
  using day_rollover [of "Date 2020 1 1" "Date 2020 1 2" example_state] by simp

section \<open>The reload job\<close>

text \<open>
  C10: the device-inventory reload job replaces the raw inventory by what the backend
  answers and leaves the live bases, cameras and doorbells as they were; the slow tick
  that hands the job to the runner leaves them unchanged as well.
\<close>

theorem reload_keeps_collections:
  "bases (refresh_devices response s) = bases s
   \<and> cameras (refresh_devices response s) = cameras s
   \<and> doorbells (refresh_devices response s) = doorbells s
   \<and> devices (refresh_devices response s) = response
   \<and> bases (slow_refresh now s) = bases s
   \<and> cameras (slow_refresh now s) = cameras s
   \<and> doorbells (slow_refresh now s) = doorbells s"
  by (simp add: refresh_devices_def slow_refresh_frame)

section \<open>Shutdown\<close>

lemma stop_frame:
  "bg (stop s) = bg s \<and> bases (stop s) = bases s \<and> today (stop s) = today s
   \<and> refresh_devices_every (stop s) = refresh_devices_every s
   \<and> refresh_devices_at (stop s) = refresh_devices_at s"
  by (simp add: stop_def Let_def)

text \<open>
  C4, as the spec states it: after \<^verbatim>\<open>stop()\<close> no further scheduled job executes. In the
  steady state, stopped, the fast cadence is still registered, and its next tick hands
  the store flush and a ping of every base to the runner.
\<close>

theorem stop_cancels_counterexample:
  "enqueued (stop example_state) (fire (FastTick (Date 2020 1 1)) (stop example_state))
     = [StSave, AsyncPing (ArloBase (PStr ''hub'') example_hub),
        AsyncPing (ArloBase (PStr ''hall'') example_arloq)]"
  by (simp add: enqueued_def fire_def stop_def example_state_def fast_refresh_def Let_def
      ping_bases_def bg_run_def)

text \<open>
  C4, amended: \<^verbatim>\<open>stop()\<close> flushes the StateStore and logs out the remote session, and that
  is all it does. It leaves the runner and its registered cadences as they were, so a
  tick fired after \<^verbatim>\<open>stop()\<close> does what it would have done without it and hands the same
  jobs to the runner.
\<close>

theorem stop_keeps_cadences:
  "st_saved (stop s) = st s \<and> \<not> be_logged_in (stop s)
   \<and> bg (stop s) = bg s
   \<and> fire t (stop s) = stop (fire t s)
   \<and> enqueued (stop s) (fire t (stop s)) = enqueued s (fire t s)"
proof -
  have a: "st_saved (stop s) = st s \<and> \<not> be_logged_in (stop s) \<and> bg (stop s) = bg s"
    by (simp add: stop_def Let_def)
  have f: "fast_refresh d (stop s) = stop (fast_refresh d s)" for d
    by (simp add: fast_refresh_def stop_def Let_def ping_bases_def)
  have g: "slow_refresh now (stop s) = stop (slow_refresh now s)" for now
    by (simp add: slow_refresh_def stop_def Let_def)
  have b: "fire t (stop s) = stop (fire t s)"
    by (cases t) (simp_all add: fire_def f g stop_frame)
  have c: "enqueued (stop s) (fire t (stop s)) = enqueued s (fire t s)"
    by (simp add: b enqueued_def stop_frame)
  from a b c show ?thesis by simp
qed

section \<open>Classification\<close>

text \<open>
  C5: classification completes without error on every inventory. The code does not: the
  third device of the spec's own end-to-end scenario has no \<^verbatim>\<open>deviceName\<close> and is not
  provisioned, and building its skip message raises TypeError out of the constructor.
\<close>

theorem init_scenario_raises:
  "init example_constants 0 Map.empty (Date 2020 1 1) 0 scenario_devices = Inl TypeError"
  by (simp add: init_def refresh_devices_def parse_devices_def scenario_devices_def
      init_device_def dict_get_def Let_def)

lemma init_device_skip:
  "dict_get d ''state'' (PStr ''unknown'') \<noteq> PStr ''provisioned''
   \<Longrightarrow> init_device d s = Inr s' \<Longrightarrow> s' = s"
  by (auto simp: init_device_def Let_def split: sum.splits)

lemma init_device_attrs:
  assumes "init_device d s = Inr s'"
  shows "\<exists>b c e. bases s' = bases s @ b \<and> cameras s' = cameras s @ c
           \<and> doorbells s' = doorbells s @ e
           \<and> (\<forall>r \<in> set (b @ c @ e). attrs r = d
                 \<and> dict_get d ''state'' (PStr ''unknown'') = PStr ''provisioned'')"
proof (cases "dict_get d ''state'' (PStr ''unknown'') = PStr ''provisioned''")
  case False
  then have "s' = s" using assms by (rule init_device_skip)
  then show ?thesis by simp
next
  case True
  let ?n = "dict_get d ''deviceName'' PNone"
  let ?t = "dict_get d ''deviceType'' PNone"
  let ?b = "if ?t = PStr ''basestation'' \<or> dict_get d ''modelId'' PNone = PStr ''ABC1000''
               \<or> ?t = PStr ''arloq'' \<or> ?t = PStr ''arloqs'' then [ArloBase ?n d] else []"
  let ?c = "if ?t = PStr ''camera'' \<or> ?t = PStr ''arloq'' \<or> ?t = PStr ''arloqs''
            then [ArloCamera ?n d] else []"
  let ?e = "if ?t = PStr ''doorbell'' then [ArloDoorBell ?n d] else []"
  have "bases s' = bases s @ ?b" "cameras s' = cameras s @ ?c" "doorbells s' = doorbells s @ ?e"
    using assms True by (auto simp: init_device_def Let_def)
  moreover have "\<forall>r \<in> set (?b @ ?c @ ?e). attrs r = d
      \<and> dict_get d ''state'' (PStr ''unknown'') = PStr ''provisioned''"
    using True by auto
  ultimately show ?thesis by blast
qed

lemma init_devices_attrs:
  "init_devices ds s = Inr s' \<Longrightarrow>
     \<exists>b c e. bases s' = bases s @ b \<and> cameras s' = cameras s @ c
        \<and> doorbells s' = doorbells s @ e
        \<and> (\<forall>r \<in> set (b @ c @ e).
              dict_get (attrs r) ''state'' (PStr ''unknown'') = PStr ''provisioned'')"
proof (induction ds arbitrary: s)
  case Nil
  then show ?case by simp
next
  case (Cons d ds)
  from Cons.prems obtain s1 where s1: "init_device d s = Inr s1" "init_devices ds s1 = Inr s'"
    by (auto split: sum.splits)
  from init_device_attrs [OF s1(1)] obtain b1 c1 e1 where
    h1: "bases s1 = bases s @ b1" "cameras s1 = cameras s @ c1" "doorbells s1 = doorbells s @ e1"
      "\<forall>r \<in> set (b1 @ c1 @ e1). attrs r = d
          \<and> dict_get d ''state'' (PStr ''unknown'') = PStr ''provisioned''"
    by blast
  from Cons.IH [OF s1(2)] obtain b2 c2 e2 where
    h2: "bases s' = bases s1 @ b2" "cameras s' = cameras s1 @ c2"
      "doorbells s' = doorbells s1 @ e2"
      "\<forall>r \<in> set (b2 @ c2 @ e2).
          dict_get (attrs r) ''state'' (PStr ''unknown'') = PStr ''provisioned''"
    by blast
  have "bases s' = bases s @ (b1 @ b2)" "cameras s' = cameras s @ (c1 @ c2)"
    "doorbells s' = doorbells s @ (e1 @ e2)"
    using h1 h2 by simp_all
  moreover have "\<forall>r \<in> set ((b1 @ b2) @ (c1 @ c2) @ (e1 @ e2)).
      dict_get (attrs r) ''state'' (PStr ''unknown'') = PStr ''provisioned''"
    using h1(4) h2(4) by auto
  ultimately show ?case by blast
qed

lemma init_collections:
  assumes "init c every store0 cur_date now ds = Inr s'"
  shows "\<exists>s2 s3. init_devices ds s2 = Inr s3 \<and> bases s2 = [] \<and> cameras s2 = []
           \<and> doorbells s2 = [] \<and> bases s' = bases s3 \<and> cameras s' = cameras s3
           \<and> doorbells s' = doorbells s3"
proof -
  let ?s2 = "parse_devices c (refresh_devices ds
     \<lparr>refresh_devices_every = every,
      bg = \<lparr>run_queue = [], run_in_queue = [], run_every_queue = []\<rparr>,
      st = store0, st_saved = store0, be_logged_in = True,
      bases = [], cameras = [], doorbells = [],
      today = cur_date, refresh_devices_at = now + every, devices = []\<rparr>)"
  have dev: "devices ?s2 = ds"
    by (simp add: parse_devices_def refresh_devices_def)
  have empty: "bases ?s2 = [] \<and> cameras ?s2 = [] \<and> doorbells ?s2 = []"
    by (simp add: parse_devices_def refresh_devices_def)
  from assms obtain s3 where s3: "init_devices ds ?s2 = Inr s3"
    unfolding init_def Let_def dev by (auto split: sum.splits)
  from assms s3 have "bases s' = bases s3 \<and> cameras s' = cameras s3
      \<and> doorbells s' = doorbells s3"
    unfolding init_def Let_def dev by (auto simp: ping_bases_def)
  with s3 empty show ?thesis by blast
qed

lemma init_device_mono:
  "init_device d s = Inr s' \<Longrightarrow>
     set (bases s) \<subseteq> set (bases s') \<and> set (cameras s) \<subseteq> set (cameras s')"
  using init_device_attrs [of d s s'] by auto

lemma init_devices_mono:
  "init_devices ds s = Inr s' \<Longrightarrow>
     set (bases s) \<subseteq> set (bases s') \<and> set (cameras s) \<subseteq> set (cameras s')"
  using init_devices_attrs [of ds s s'] by auto

lemma init_device_combined:
  assumes "dict_get d ''deviceType'' PNone = PStr ''arloq''
             \<or> dict_get d ''deviceType'' PNone = PStr ''arloqs''"
    and "dict_get d ''state'' (PStr ''unknown'') = PStr ''provisioned''"
  shows "init_device d s =
           Inr (s\<lparr>bases := bases s @ [ArloBase (dict_get d ''deviceName'' PNone) d],
                  cameras := cameras s @ [ArloCamera (dict_get d ''deviceName'' PNone) d]\<rparr>)"
  using assms by (auto simp: init_device_def Let_def)

lemma init_devices_combined:
  assumes "dict_get d ''deviceType'' PNone = PStr ''arloq''
             \<or> dict_get d ''deviceType'' PNone = PStr ''arloqs''"
    and "dict_get d ''state'' (PStr ''unknown'') = PStr ''provisioned''"
  shows "d \<in> set ds \<Longrightarrow> init_devices ds s = Inr s' \<Longrightarrow>
     ArloBase (dict_get d ''deviceName'' PNone) d \<in> set (bases s')
     \<and> ArloCamera (dict_get d ''deviceName'' PNone) d \<in> set (cameras s')"
proof (induction ds arbitrary: s)
  case Nil
  then show ?case by simp
next
  case (Cons x ds)
  from Cons.prems(2) obtain s1 where s1: "init_device x s = Inr s1" "init_devices ds s1 = Inr s'"
    by (auto split: sum.splits)
  show ?case
  proof (cases "x = d")
    case True
    have "ArloBase (dict_get d ''deviceName'' PNone) d \<in> set (bases s1)
        \<and> ArloCamera (dict_get d ''deviceName'' PNone) d \<in> set (cameras s1)"
      using s1(1) True init_device_combined [OF assms, of s] by auto
    with init_devices_mono [OF s1(2)] show ?thesis by blast
  next
    case False
    with Cons.prems(1) have "d \<in> set ds" by simp
    from Cons.IH [OF this s1(2)] show ?thesis .
  qed
qed

text \<open>
  C6: for a raw device of type \<^verbatim>\<open>arloq\<close> or \<^verbatim>\<open>arloqs\<close> in state \<^verbatim>\<open>provisioned\<close>, the loop
  body returns normally and appends one Base record and one Camera record built from
  that device, the two records have the device's \<^verbatim>\<open>deviceId\<close>, and whenever the
  constructor completes on an inventory holding the device both records are in its
  collections.
\<close>

theorem combined_device_dual:
  assumes "dict_get d ''deviceType'' PNone = PStr ''arloq''
             \<or> dict_get d ''deviceType'' PNone = PStr ''arloqs''"
    and "dict_get d ''state'' (PStr ''unknown'') = PStr ''provisioned''"
  shows "init_device d s =
           Inr (s\<lparr>bases := bases s @ [ArloBase (dict_get d ''deviceName'' PNone) d],
                  cameras := cameras s @ [ArloCamera (dict_get d ''deviceName'' PNone) d]\<rparr>)
     \<and> device_id (ArloBase (dict_get d ''deviceName'' PNone) d)
         = device_id (ArloCamera (dict_get d ''deviceName'' PNone) d)
     \<and> device_id (ArloBase (dict_get d ''deviceName'' PNone) d) = dict_get d ''deviceId'' PNone
     \<and> (d \<in> set ds \<longrightarrow> init c every store0 cur_date now ds = Inr s'
          \<longrightarrow> ArloBase (dict_get d ''deviceName'' PNone) d \<in> set (bases s')
              \<and> ArloCamera (dict_get d ''deviceName'' PNone) d \<in> set (cameras s'))"
proof -
  have loop: "ArloBase (dict_get d ''deviceName'' PNone) d \<in> set (bases s')
              \<and> ArloCamera (dict_get d ''deviceName'' PNone) d \<in> set (cameras s')"
    if mem: "d \<in> set ds" and ok: "init c every store0 cur_date now ds = Inr s'"
  proof -
    from init_collections [OF ok] obtain s2 s3 where
      h: "init_devices ds s2 = Inr s3" "bases s' = bases s3" "cameras s' = cameras s3"
      by blast
    from init_devices_combined [OF assms mem h(1)] h(2,3) show ?thesis by simp
  qed
  from init_device_combined [OF assms, of s] loop show ?thesis
    by (simp add: device_id_def)
qed

theorem combined_device_dual_witness:
  "(dict_get example_arloq ''deviceType'' PNone = PStr ''arloq''
      \<or> dict_get example_arloq ''deviceType'' PNone = PStr ''arloqs'')
   \<and> dict_get example_arloq ''state'' (PStr ''unknown'') = PStr ''provisioned''
   \<and> example_arloq \<in> set example_devices
   \<and> example_started = Inr (projr example_started)
   \<and> ArloBase (PStr ''hall'') example_arloq \<in> set (bases (projr example_started))
   \<and> ArloCamera (PStr ''hall'') example_arloq \<in> set (cameras (projr example_started))
   \<and> device_id (ArloBase (PStr ''hall'') example_arloq) = PStr ''Q1''
   \<and> device_id (ArloCamera (PStr ''hall'') example_arloq) = PStr ''Q1''"
proof -
  have t: "dict_get example_arloq ''deviceType'' PNone = PStr ''arloq''
      \<or> dict_get example_arloq ''deviceType'' PNone = PStr ''arloqs''"
    by (simp add: example_arloq_def dict_get_def)
  have p: "dict_get example_arloq ''state'' (PStr ''unknown'') = PStr ''provisioned''"
    by (simp add: example_arloq_def dict_get_def)
  have n: "dict_get example_arloq ''deviceName'' PNone = PStr ''hall''"
    by (simp add: example_arloq_def dict_get_def)
  have i: "dict_get example_arloq ''deviceId'' PNone = PStr ''Q1''"
    by (simp add: example_arloq_def dict_get_def)
  have m: "example_arloq \<in> set example_devices"
    by (simp add: example_devices_def)
  have "\<not> isl example_started"
    by (simp add: example_started_def init_def refresh_devices_def parse_devices_def
        example_devices_def example_hub_def example_arloq_def example_skipped_def
        init_device_def dict_get_def Let_def)
  then have r: "example_started = Inr (projr example_started)"
    by (cases example_started) simp_all
  then have r': "init example_constants 5 Map.empty (Date 2020 1 1) 5 example_devices
      = Inr (projr example_started)"
    by (simp only: example_started_def [symmetric])
  from combined_device_dual [OF t p, where s = example_state and ds = example_devices
      and c = example_constants and every = 5 and ?store0.0 = Map.empty
      and cur_date = "Date 2020 1 1" and now = 5 and s' = "projr example_started"]
    t p m r r' n i
  show ?thesis by (simp add: device_id_def)
qed


text \<open>
  C7: for a raw device whose state is absent or not \<^verbatim>\<open>provisioned\<close>, the loop body adds
  no record (it returns the state unchanged, or raises), and whenever the constructor
  completes on an inventory holding the device, no record of its bases, cameras or
  doorbells is built from that device, whatever its other fields.
\<close>

theorem unprovisioned_no_record:
  assumes "dict_get d ''state'' (PStr ''unknown'') \<noteq> PStr ''provisioned''"
  shows "(init_device d s = Inr s \<or> init_device d s = Inl TypeError)
     \<and> (d \<in> set ds \<longrightarrow> init c every store0 cur_date now ds = Inr s'
          \<longrightarrow> (\<forall>r \<in> set (bases s' @ cameras s' @ doorbells s'). attrs r \<noteq> d))"
proof -
  have step: "init_device d s = Inr s \<or> init_device d s = Inl TypeError"
  proof (cases "init_device d s")
    case (Inl e)
    then show ?thesis by (cases e) simp
  next
    case (Inr s1)
    with assms init_device_skip show ?thesis by blast
  qed
  have loop: "\<forall>r \<in> set (bases s' @ cameras s' @ doorbells s'). attrs r \<noteq> d"
    if ok: "init c every store0 cur_date now ds = Inr s'"
  proof -
    from init_collections [OF ok] obtain s2 s3 where
      h: "init_devices ds s2 = Inr s3" "bases s2 = []" "cameras s2 = []" "doorbells s2 = []"
        "bases s' = bases s3" "cameras s' = cameras s3" "doorbells s' = doorbells s3"
      by blast
    from init_devices_attrs [OF h(1)] h(2-7)
    have "\<forall>r \<in> set (bases s' @ cameras s' @ doorbells s').
        dict_get (attrs r) ''state'' (PStr ''unknown'') = PStr ''provisioned''"
      by auto
    with assms show ?thesis by blast
  qed
  from step loop show ?thesis by blast
qed

theorem unprovisioned_no_record_witness:
  "dict_get example_skipped ''state'' (PStr ''unknown'') \<noteq> PStr ''provisioned''
   \<and> init_device example_skipped example_state = Inr example_state
   \<and> example_skipped \<in> set example_devices
   \<and> example_started = Inr (projr example_started)
   \<and> example_skipped
        \<notin> attrs ` set (bases (projr example_started) @ cameras (projr example_started)
                        @ doorbells (projr example_started))"
proof -
  have p: "dict_get example_skipped ''state'' (PStr ''unknown'') \<noteq> PStr ''provisioned''"
    by (simp add: example_skipped_def dict_get_def)
  have k: "init_device example_skipped example_state = Inr example_state"
    by (simp add: init_device_def example_skipped_def dict_get_def)
  have m: "example_skipped \<in> set example_devices"
    by (simp add: example_devices_def)
  have "\<not> isl example_started"
    by (simp add: example_started_def init_def refresh_devices_def parse_devices_def
        example_devices_def example_hub_def example_arloq_def example_skipped_def
        init_device_def dict_get_def Let_def)
  then have r: "example_started = Inr (projr example_started)"
    by (cases example_started) simp_all
  then have r': "init example_constants 5 Map.empty (Date 2020 1 1) 5 example_devices
      = Inr (projr example_started)"
    by (simp only: example_started_def [symmetric])
  from unprovisioned_no_record [OF p, where s = example_state and ds = example_devices
      and c = example_constants and every = 5 and ?store0.0 = Map.empty
      and cur_date = "Date 2020 1 1" and now = 5 and s' = "projr example_started"]
    m r'
  have "\<forall>r \<in> set (bases (projr example_started) @ cameras (projr example_started)
                        @ doorbells (projr example_started)). attrs r \<noteq> example_skipped"
    by blast
  then have "example_skipped
        \<notin> attrs ` set (bases (projr example_started) @ cameras (projr example_started)
                        @ doorbells (projr example_started))"
    by (metis image_iff)
  with p k m r show ?thesis by blast
qed


section \<open>Metadata persistence\<close>

lemma map_add_twice: "(m ++ w) ++ w = m ++ (w :: 'a \<rightharpoonup> 'b)"
  by (rule ext) (simp add: map_add_def split: option.split)

lemma parse_device_keys_add:
  "parse_device_keys i d ks store = store ++ parse_device_keys i d ks Map.empty"
proof (induction ks arbitrary: store)
  case Nil
  then show ?case by simp
next
  case (Cons k ks)
  let ?v = "dict_get d k PNone"
  let ?w = "parse_device_keys i d ks Map.empty"
  show ?case
  proof (cases "?v = PNone")
    case True
    then show ?thesis using Cons.IH [of store] by simp
  next
    case False
    have "parse_device_keys i d (k # ks) store
            = parse_device_keys i d ks (store([i, PStr k] \<mapsto> ?v))"
      using False by (simp add: st_set_def)
    also have "\<dots> = store([i, PStr k] \<mapsto> ?v) ++ ?w"
      by (rule Cons.IH)
    finally have l: "parse_device_keys i d (k # ks) store = store([i, PStr k] \<mapsto> ?v) ++ ?w" .
    have "parse_device_keys i d (k # ks) Map.empty
            = parse_device_keys i d ks [[i, PStr k] \<mapsto> ?v]"
      using False by (simp add: st_set_def)
    also have "\<dots> = [[i, PStr k] \<mapsto> ?v] ++ ?w"
      by (rule Cons.IH)
    finally have r: "parse_device_keys i d (k # ks) Map.empty = [[i, PStr k] \<mapsto> ?v] ++ ?w" .
    have "store ++ ([[i, PStr k] \<mapsto> ?v] ++ ?w) = store([i, PStr k] \<mapsto> ?v) ++ ?w"
      by simp
    with l r show ?thesis by simp
  qed
qed

lemma parse_devices_loop_add:
  "parse_devices_loop ks ds store = store ++ parse_devices_loop ks ds Map.empty"
proof (induction ds arbitrary: store)
  case Nil
  then show ?case by simp
next
  case (Cons d ds)
  let ?i = "dict_get d ''deviceId'' PNone"
  let ?w = "parse_devices_loop ks ds Map.empty"
  show ?case
  proof (cases "?i = PNone")
    case True
    then show ?thesis using Cons.IH [of store] by simp
  next
    case False
    let ?k = "parse_device_keys ?i d ks Map.empty"
    have "parse_devices_loop ks (d # ds) store
            = parse_devices_loop ks ds (parse_device_keys ?i d ks store)"
      using False by simp
    also have "\<dots> = parse_device_keys ?i d ks store ++ ?w"
      by (rule Cons.IH)
    also have "\<dots> = (store ++ ?k) ++ ?w"
      by (simp only: parse_device_keys_add [of ?i d ks store])
    finally have l: "parse_devices_loop ks (d # ds) store = (store ++ ?k) ++ ?w" .
    have "parse_devices_loop ks (d # ds) Map.empty = parse_devices_loop ks ds ?k"
      using False by simp
    also have "\<dots> = ?k ++ ?w"
      by (rule Cons.IH)
    finally have r: "parse_devices_loop ks (d # ds) Map.empty = ?k ++ ?w" .
    from l r show ?thesis by (simp only: map_add_assoc)
  qed
qed

lemma parse_device_keys_lookup:
  "parse_device_keys i d ks store [j, PStr k] =
     (if j = i \<and> k \<in> set ks \<and> dict_get d k PNone \<noteq> PNone
      then Some (dict_get d k PNone) else store [j, PStr k])"
  by (induction ks arbitrary: store) (auto simp: st_set_def Let_def)

lemma parse_devices_loop_append:
  "parse_devices_loop ks (xs @ ys) store = parse_devices_loop ks ys (parse_devices_loop ks xs store)"
  by (induction xs arbitrary: store) (simp_all add: Let_def)

lemma parse_devices_loop_keeps:
  "\<forall>d' \<in> set ds. dict_get d' ''deviceId'' PNone = i \<longrightarrow> dict_get d' k PNone = PNone
   \<Longrightarrow> parse_devices_loop ks ds store [i, PStr k] = store [i, PStr k]"
  by (induction ds arbitrary: store) (auto simp: Let_def parse_device_keys_lookup)

lemma parse_devices_loop_dom:
  "p \<in> dom store \<Longrightarrow> p \<in> dom (parse_devices_loop ks ds store)"
  using parse_devices_loop_add [of ks ds store] by auto

text \<open>
  C8: for every raw device of the inventory with a non-null \<^verbatim>\<open>deviceId\<close> and every tracked
  key it carries with a non-null value, the store has an entry under the path
  \<^verbatim>\<open>[deviceId, key]\<close> after the persist step, and the entry is that value unless a later
  device of the inventory with the same \<^verbatim>\<open>deviceId\<close> carries the key too (the later write
  wins). Nothing is asked of the device's state: skipped devices are persisted too.
\<close>

theorem metadata_persisted:
  assumes "devices s = pre @ d # post"
    and "dict_get d ''deviceId'' PNone = i" and "i \<noteq> PNone"
    and "key \<in> set (DEVICE_KEYS c)"
    and "dict_get d key PNone = v" and "v \<noteq> PNone"
  shows "[i, PStr key] \<in> dom (st (parse_devices c s))
     \<and> ((\<forall>d' \<in> set post. dict_get d' ''deviceId'' PNone = i \<longrightarrow> dict_get d' key PNone = PNone)
          \<longrightarrow> st (parse_devices c s) [i, PStr key] = Some v)"
proof -
  let ?ks = "DEVICE_KEYS c"
  let ?s0 = "parse_devices_loop ?ks pre (st s)"
  let ?s1 = "parse_device_keys i d ?ks ?s0"
  have split: "st (parse_devices c s) = parse_devices_loop ?ks post ?s1"
    using assms(1,2,3) by (simp add: parse_devices_def parse_devices_loop_append)
  have at_d: "?s1 [i, PStr key] = Some v"
    using assms(4,5,6) by (simp add: parse_device_keys_lookup)
  have "[i, PStr key] \<in> dom ?s1" using at_d by blast
  then have a: "[i, PStr key] \<in> dom (st (parse_devices c s))"
    unfolding split by (rule parse_devices_loop_dom)
  have b: "st (parse_devices c s) [i, PStr key] = Some v"
    if "\<forall>d' \<in> set post. dict_get d' ''deviceId'' PNone = i \<longrightarrow> dict_get d' key PNone = PNone"
    using that at_d unfolding split by (simp add: parse_devices_loop_keeps)
  from a b show ?thesis by blast
qed

theorem metadata_persisted_witness:
  "devices example_state = [example_hub, example_arloq] @ example_skipped # []
   \<and> dict_get example_skipped ''deviceId'' PNone = PStr ''X1''
   \<and> PStr ''X1'' \<noteq> PNone
   \<and> ''modelId'' \<in> set (DEVICE_KEYS example_constants)
   \<and> dict_get example_skipped ''modelId'' PNone = PStr ''VMC4030''
   \<and> PStr ''VMC4030'' \<noteq> PNone
   \<and> dict_get example_skipped ''state'' (PStr ''unknown'') \<noteq> PStr ''provisioned''
   \<and> [PStr ''X1'', PStr ''modelId'']
        \<in> dom (st (parse_devices example_constants example_state))
   \<and> st (parse_devices example_constants example_state) [PStr ''X1'', PStr ''modelId'']
        = Some (PStr ''VMC4030'')"
proof -
  have a: "devices example_state = [example_hub, example_arloq] @ example_skipped # []"
    by (simp add: example_state_def example_devices_def)
  have b: "dict_get example_skipped ''deviceId'' PNone = PStr ''X1''"
    by (simp add: example_skipped_def dict_get_def)
  have c: "''modelId'' \<in> set (DEVICE_KEYS example_constants)"
    by (simp add: example_constants_def)
  have d: "dict_get example_skipped ''modelId'' PNone = PStr ''VMC4030''"
    by (simp add: example_skipped_def dict_get_def)
  have e: "dict_get example_skipped ''state'' (PStr ''unknown'') \<noteq> PStr ''provisioned''"
    by (simp add: example_skipped_def dict_get_def)
  from metadata_persisted [OF a b _ c d] a b c d e show ?thesis by simp
qed


text \<open>
  C9: running the persist step a second time on the same inventory leaves the store as
  the first run left it, from any starting store.
\<close>

theorem persist_idempotent:
  "parse_devices_loop ks ds (parse_devices_loop ks ds store) = parse_devices_loop ks ds store
   \<and> parse_devices c (parse_devices c s) = parse_devices c s"
proof -
  have loop: "parse_devices_loop ks' ds' (parse_devices_loop ks' ds' store')
      = parse_devices_loop ks' ds' store'" for ks' ds' store'
  proof -
    let ?w = "parse_devices_loop ks' ds' Map.empty"
    have "parse_devices_loop ks' ds' (parse_devices_loop ks' ds' store') = (store' ++ ?w) ++ ?w"
      using parse_devices_loop_add [of ks' ds' "parse_devices_loop ks' ds' store'"]
        parse_devices_loop_add [of ks' ds' store'] by simp
    also have "\<dots> = store' ++ ?w" by (rule map_add_twice)
    also have "\<dots> = parse_devices_loop ks' ds' store'"
      using parse_devices_loop_add [of ks' ds' store'] by simp
    finally show ?thesis .
  qed
  have "parse_devices c (parse_devices c s) = parse_devices c s"
    by (simp add: parse_devices_def loop)
  with loop show ?thesis by simp
qed


end
